theory Spec2Isabelle
  imports Main "HOL-Library.Word"
begin

unbundle bit_operations_syntax

section \<open>The TMS6100 emulator firmware (Firmware/tms6100/main.c)\<close>

subsection \<open>Data\<close>

text \<open>
  The flags of the firmware are \<open>uint8_t\<close> values compared against the macros
  \<open>FALSE\<close> (0) and \<open>TRUE\<close> (1).
\<close>

abbreviation FALSE :: "8 word" where "FALSE \<equiv> 0"
abbreviation TRUE :: "8 word" where "TRUE \<equiv> 1"

text \<open>\<open>struct tms6100State\<close>, field by field.\<close>

record tms6100State =
  address :: "32 word"
  bankSelectNumber :: "32 word"
  loadAddressNibble :: "8 word"
  validAddressLoadedFlag :: "8 word"
  readDataActive :: "8 word"
  currentBit :: "8 word"
  currentByte :: "8 word"
  add8InputFlag :: "8 word"
  bankActiveFlag :: "8 word"

text \<open>
  The I/O register bits the two interrupt handlers write. The header hardwaremap.h, which
  maps each \<open>TMS6100_*\<close> and \<open>DEBUG*\<close> macro to a register and a bit mask, is not part
  of the sources; every macro is taken to name one bit of its register, and each such bit is
  one field here: \<open>ADD8_DDR\<close> is the ADD8 bit of \<open>TMS6100_ADD8_DDR\<close> (set: the pin is an
  output), \<open>ADD8_PORT\<close> the ADD8 bit of \<open>TMS6100_ADD8_PORT\<close>, \<open>DEBUG0_PORT\<close> to
  \<open>DEBUG2_PORT\<close> the three debug outputs, \<open>EICRA_M0_ISC1\<close> and \<open>EICRA_M0_ISC0\<close> the
  edge selection of the M0 interrupt, \<open>EIFR_M0_INTF\<close> its pending flag (cleared by
  writing a one), \<open>EIMSK_M0_INT\<close> its enable bit. \<open>SPCR\<close> is written as a whole.
  The pins the handlers only read, or never touch, have no field.
\<close>

record avr_io =
  ADD8_DDR :: bool
  ADD8_PORT :: bool
  DEBUG0_PORT :: bool
  DEBUG1_PORT :: bool
  DEBUG2_PORT :: bool
  EICRA_M0_ISC1 :: bool
  EICRA_M0_ISC0 :: bool
  EIFR_M0_INTF :: bool
  EIMSK_M0_INT :: bool
  SPCR :: "8 word"

type_synonym machine = "tms6100State \<times> avr_io"

text \<open>
  The PHROM image (romdata_acorn.h or romdata_us.h, not part of the sources) supplies the
  bank number \<open>PHROM_BANK\<close> and the byte table \<open>phromData\<close>; both are parameters.
  \<open>PHROM_BANK\<close> is compared with a \<open>uint32_t\<close>, so it is taken at that type.
\<close>

record rom =
  PHROM_BANK :: "32 word"
  phromData :: "32 word \<Rightarrow> 8 word"

text \<open>The levels sampled on the four address pins by the LOAD ADDRESS handler.\<close>

record pins =
  ADD1_PIN :: bool
  ADD2_PIN :: bool
  ADD4_PIN :: bool
  ADD8_PIN :: bool

text \<open>
  Every write of a handler to the ADD8 bit of the direction or of the port register, in
  program order.
\<close>

datatype bus_op = ADD8_DDR_Set | ADD8_DDR_Clear | ADD8_PORT_Set | ADD8_PORT_Clear

text \<open>The register write that puts the value \<open>b\<close> on the ADD8 bit of the port.\<close>

definition port_write :: "bool \<Rightarrow> bus_op" where
  "port_write b = (if b then ADD8_PORT_Set else ADD8_PORT_Clear)"

text \<open>What the ADD8 pin presents to the shared bus.\<close>

datatype line = Released | Driven bool

definition add8_line :: "avr_io \<Rightarrow> line" where
  "add8_line h = (if ADD8_DDR h then Driven (ADD8_PORT h) else Released)"

subsection \<open>Start-up\<close>

text \<open>
  Static storage is zeroed and the I/O registers hold their reset value 0 when \<open>main\<close>
  starts.
\<close>

definition power_on :: machine where
  "power_on =
     (\<lparr>address = 0, bankSelectNumber = 0, loadAddressNibble = 0,
       validAddressLoadedFlag = 0, readDataActive = 0, currentBit = 0, currentByte = 0,
       add8InputFlag = 0, bankActiveFlag = 0\<rparr>,
      \<lparr>ADD8_DDR = False, ADD8_PORT = False, DEBUG0_PORT = False, DEBUG1_PORT = False,
       DEBUG2_PORT = False, EICRA_M0_ISC1 = False, EICRA_M0_ISC0 = False,
       EIFR_M0_INTF = False, EIMSK_M0_INT = False, SPCR = 0\<rparr>)"

text \<open>
  \<open>initialiseHardware\<close> (lines 86 to 135): of its register writes, those to the bits
  modelled here, and the initialisation of the emulation state. \<open>bankSelectNumber\<close> is
  not assigned.
\<close>

definition initialiseHardware :: "machine \<Rightarrow> machine" where
  "initialiseHardware s = (case s of (t, h) \<Rightarrow>
     (let h = h\<lparr>ADD8_DDR := False\<rparr>;
          h = h\<lparr>ADD8_PORT := False\<rparr>;
          t = t\<lparr>address := 0\<rparr>;
          t = t\<lparr>loadAddressNibble := 0\<rparr>;
          t = t\<lparr>validAddressLoadedFlag := FALSE\<rparr>;
          t = t\<lparr>readDataActive := FALSE\<rparr>;
          t = t\<lparr>currentBit := 0\<rparr>;
          t = t\<lparr>currentByte := 0\<rparr>;
          t = t\<lparr>add8InputFlag := TRUE\<rparr>;
          t = t\<lparr>bankActiveFlag := FALSE\<rparr>;
          h = h\<lparr>DEBUG0_PORT := False\<rparr>;
          h = h\<lparr>DEBUG1_PORT := False\<rparr>;
          h = h\<lparr>DEBUG2_PORT := False\<rparr>
      in (t, h)))"

text \<open>
  \<open>main\<close> up to \<open>sei()\<close> (lines 357 to 387): the M0 interrupt is set to the falling
  edge and enabled. After that the program only runs the two handlers.
\<close>

definition main_setup :: "machine \<Rightarrow> machine" where
  "main_setup s =
     (case initialiseHardware s of (t, h) \<Rightarrow>
        let h = h\<lparr>EICRA_M0_ISC1 := True\<rparr>;
            h = h\<lparr>EIMSK_M0_INT := True\<rparr>;
            h = h\<lparr>SPCR := 0\<rparr>
        in (t, h))"

definition initial :: machine where
  "initial = main_setup power_on"

subsection \<open>READ DATA: the handler of the M0 interrupt\<close>

text \<open>
  \<open>ISR(TMS6100_M0_INT_VECT)\<close> (lines 139 to 260), statement by statement. The handler
  returns the new machine and its writes to the ADD8 registers. In
  \<open>currentByte & (1 << currentBit)\<close> both operands are of type \<open>int\<close>, 16 bits wide on
  the AVR; the shift is defined in C while \<open>currentBit\<close> is below 15, and \<open>currentBit\<close>
  never exceeds 7 (\<open>reached_current_bit\<close> below).
\<close>

definition isr_m0 :: "rom \<Rightarrow> machine \<Rightarrow> machine \<times> bus_op list" where
  "isr_m0 rom s = (case s of (t, h) \<Rightarrow>
     (if readDataActive t = TRUE then
        let (t, h, ops) =
              (if bankActiveFlag t = TRUE then
                 (if add8InputFlag t = TRUE
                  then (t\<lparr>add8InputFlag := FALSE\<rparr>, h\<lparr>ADD8_DDR := True\<rparr>, [ADD8_DDR_Set])
                  else (t, h, []))
               else
                 (if add8InputFlag t = FALSE
                  then (t\<lparr>add8InputFlag := TRUE\<rparr>,
                        h\<lparr>ADD8_DDR := False, ADD8_PORT := False\<rparr>,
                        [ADD8_DDR_Clear, ADD8_PORT_Clear])
                  else (t, h, [])));
            (h, ops) =
              (if bankActiveFlag t = TRUE then
                 let dataBit =
                       (if (ucast (currentByte t) AND push_bit (unat (currentBit t)) (1 :: 16 word)) = 0
                        then (0 :: 8 word) else 1)
                 in if dataBit = 0
                    then (h\<lparr>ADD8_PORT := False\<rparr>, ops @ [ADD8_PORT_Clear])
                    else (h\<lparr>ADD8_PORT := True\<rparr>, ops @ [ADD8_PORT_Set])
               else (h, ops));
            t = t\<lparr>currentBit := currentBit t + 1\<rparr>
        in if currentBit t > 7 then
             let t = t\<lparr>currentBit := 0\<rparr>;
                 t = t\<lparr>address := address t + 1\<rparr>;
                 currentBank = drop_bit 14 (address t AND 0x3C000);
                 localAddress = address t AND 0x3FFF
             in if currentBank = PHROM_BANK rom
                then ((t\<lparr>currentByte := phromData rom localAddress, bankActiveFlag := TRUE\<rparr>,
                       h\<lparr>DEBUG2_PORT := True\<rparr>), ops)
                else ((t\<lparr>currentByte := 0xFF, bankActiveFlag := FALSE\<rparr>,
                       h\<lparr>DEBUG2_PORT := False\<rparr>), ops)
           else ((t, h), ops)
      else if validAddressLoadedFlag t = FALSE then
        let t = t\<lparr>address := 0\<rparr>;
            t = t\<lparr>loadAddressNibble := 0\<rparr>
        in ((t, h), [])
      else
        let t = t\<lparr>readDataActive := TRUE\<rparr>;
            h = h\<lparr>DEBUG1_PORT := True\<rparr>;
            currentBank = drop_bit 14 (address t AND 0x3C000);
            localAddress = address t AND 0x3FFF;
            (t, h) =
              (if currentBank = PHROM_BANK rom
               then (t\<lparr>currentByte := phromData rom localAddress, currentBit := 0,
                       bankActiveFlag := TRUE\<rparr>, h\<lparr>DEBUG2_PORT := True\<rparr>)
               else (t\<lparr>currentByte := 0xFF, currentBit := 0, bankActiveFlag := FALSE\<rparr>,
                     h\<lparr>DEBUG2_PORT := False\<rparr>));
            h = h\<lparr>EICRA_M0_ISC1 := True, EICRA_M0_ISC0 := True\<rparr>
        in ((t, h), [])))"

subsection \<open>LOAD ADDRESS: the handler of the M1 interrupt\<close>

text \<open>The nibble on the four address pins (lines 304 to 308).\<close>

definition read_nibble :: "pins \<Rightarrow> 32 word" where
  "read_nibble p =
     (let addressNibble = 0;
          addressNibble = (if ADD1_PIN p then addressNibble + 1 else addressNibble);
          addressNibble = (if ADD2_PIN p then addressNibble + 2 else addressNibble);
          addressNibble = (if ADD4_PIN p then addressNibble + 4 else addressNibble);
          addressNibble = (if ADD8_PIN p then addressNibble + 8 else addressNibble)
      in addressNibble)"

text \<open>
  \<open>ISR(TMS6100_M1_INT_VECT)\<close> (lines 264 to 350), statement by statement, on the pin levels
  \<open>p\<close> it samples.
\<close>

definition isr_m1 :: "pins \<Rightarrow> machine \<Rightarrow> machine \<times> bus_op list" where
  "isr_m1 p s = (case s of (t, h) \<Rightarrow>
     (let h = h\<lparr>SPCR := 0\<rparr>;
          t = t\<lparr>readDataActive := FALSE\<rparr>;
          t = t\<lparr>bankActiveFlag := FALSE\<rparr>;
          h = h\<lparr>DEBUG1_PORT := False\<rparr>;
          h = h\<lparr>DEBUG2_PORT := False\<rparr>;
          h = h\<lparr>EICRA_M0_ISC1 := True\<rparr>;
          h = h\<lparr>EICRA_M0_ISC0 := False\<rparr>;
          h = h\<lparr>EIFR_M0_INTF := False\<rparr>;
          h = h\<lparr>EIMSK_M0_INT := True\<rparr>;
          (t, h, ops) =
            (if add8InputFlag t = FALSE
             then (t\<lparr>add8InputFlag := TRUE\<rparr>,
                   h\<lparr>ADD8_DDR := False, ADD8_PORT := False\<rparr>,
                   [ADD8_DDR_Clear, ADD8_PORT_Clear])
             else (t, h, []));
          addressNibble = read_nibble p;
          t = (if loadAddressNibble t = 0 then t\<lparr>address := 0\<rparr> else t);
          t = (if loadAddressNibble t = 0
               then t\<lparr>address := address t OR push_bit 0 addressNibble\<rparr> else t);
          t = (if loadAddressNibble t = 1
               then t\<lparr>address := address t OR push_bit 4 addressNibble\<rparr> else t);
          t = (if loadAddressNibble t = 2
               then t\<lparr>address := address t OR push_bit 8 addressNibble\<rparr> else t);
          t = (if loadAddressNibble t = 3
               then t\<lparr>address := address t OR push_bit 12 addressNibble\<rparr> else t);
          t = (if loadAddressNibble t = 4
               then t\<lparr>address := address t OR push_bit 16 addressNibble\<rparr> else t);
          t = t\<lparr>loadAddressNibble := loadAddressNibble t + 1\<rparr>
      in if loadAddressNibble t > 4 then
           let t = t\<lparr>validAddressLoadedFlag := TRUE\<rparr>;
               t = t\<lparr>loadAddressNibble := 0\<rparr>;
               h = h\<lparr>DEBUG0_PORT := True\<rparr>;
               t = t\<lparr>bankSelectNumber := drop_bit 14 (address t AND 0x3C000)\<rparr>;
               t = t\<lparr>address := address t AND 0x3FFFF\<rparr>
           in ((t, h), ops)
         else
           let t = t\<lparr>validAddressLoadedFlag := FALSE\<rparr>;
               h = h\<lparr>DEBUG0_PORT := False\<rparr>
           in ((t, h), ops)))"

subsection \<open>Sequences of interrupts\<close>

datatype event = M0_INT | M1_INT pins

fun step :: "rom \<Rightarrow> event \<Rightarrow> machine \<Rightarrow> machine \<times> bus_op list" where
  "step rom M0_INT s = isr_m0 rom s"
| "step rom (M1_INT p) s = isr_m1 p s"

text \<open>
  The handlers run with interrupts disabled, one at a time. The machine after a sequence of
  interrupts, and all register writes to ADD8 on the way:
\<close>

fun run :: "rom \<Rightarrow> event list \<Rightarrow> machine \<Rightarrow> machine \<times> bus_op list" where
  "run rom [] s = (s, [])"
| "run rom (e # es) s =
     (case step rom e s of (s1, ops1) \<Rightarrow>
        case run rom es s1 of (s2, ops2) \<Rightarrow> (s2, ops1 @ ops2))"

text \<open>What the ADD8 pin presents after each interrupt of a sequence.\<close>

fun lines :: "rom \<Rightarrow> event list \<Rightarrow> machine \<Rightarrow> line list" where
  "lines rom [] s = []"
| "lines rom (e # es) s =
     (case step rom e s of (s1, ops1) \<Rightarrow> add8_line (snd s1) # lines rom es s1)"

subsection \<open>Invariants of the machine\<close>

text \<open>
  \<open>add8InputFlag\<close> shadows the direction bit of ADD8: the handlers test the flag, never
  the register.
\<close>

definition add8_consistent :: "machine \<Rightarrow> bool" where
  "add8_consistent s =
     ((add8InputFlag (fst s) = TRUE \<and> ADD8_DDR (snd s) = False) \<or>
      (add8InputFlag (fst s) = FALSE \<and> ADD8_DDR (snd s) = True))"

text \<open>Outside a read session the pin is an input.\<close>

definition machine_inv :: "machine \<Rightarrow> bool" where
  "machine_inv s =
     (add8_consistent s \<and> (readDataActive (fst s) = TRUE \<or> add8InputFlag (fst s) = TRUE))"

subsection \<open>Vocabulary of the specification\<close>

text \<open>
  The 20-bit value the specification assigns to five nibbles:
  \<open>n0 | (n1<<4) | (n2<<8) | (n3<<12) | (n4<<16)\<close>.
\<close>

definition spec_accumulate ::
  "32 word \<Rightarrow> 32 word \<Rightarrow> 32 word \<Rightarrow> 32 word \<Rightarrow> 32 word \<Rightarrow> 32 word" where
  "spec_accumulate n0 n1 n2 n3 n4 =
     n0 OR push_bit 4 n1 OR push_bit 8 n2 OR push_bit 12 n3 OR push_bit 16 n4"

text \<open>The bits of a byte in the order of transmission: bit 0 first, bit 7 last.\<close>

definition byte_bits :: "8 word \<Rightarrow> bool list" where
  "byte_bits b = [bit b 0, bit b 1, bit b 2, bit b 3, bit b 4, bit b 5, bit b 6, bit b 7]"

text \<open>The bank and the offset the handlers derive from an address.\<close>

definition bank_of :: "32 word \<Rightarrow> 32 word" where
  "bank_of a = drop_bit 14 (a AND 0x3C000)"

definition offset_of :: "32 word \<Rightarrow> 32 word" where
  "offset_of a = a AND 0x3FFF"

subsection \<open>A concrete device\<close>

text \<open>The pin levels that carry the nibble \<open>n\<close>.\<close>

definition nibble_pins :: "32 word \<Rightarrow> pins" where
  "nibble_pins n =
     \<lparr>ADD1_PIN = bit n 0, ADD2_PIN = bit n 1, ADD4_PIN = bit n 2, ADD8_PIN = bit n 3\<rparr>"

definition example_data :: "32 word \<Rightarrow> 8 word" where
  "example_data a = (if a = 0 then 0xA5 else 0x3C)"

definition example_rom :: rom where
  "example_rom = \<lparr>PHROM_BANK = 2, phromData = example_data\<rparr>"

text \<open>LOAD ADDRESS of 0x08000 (bank 2, offset 0), least significant nibble first.\<close>

definition example_load :: "event list" where
  "example_load =
     [M1_INT (nibble_pins 0), M1_INT (nibble_pins 0), M1_INT (nibble_pins 0),
      M1_INT (nibble_pins 8), M1_INT (nibble_pins 0)]"

text \<open>LOAD ADDRESS of 0x0BFFF (bank 2, offset 0x3FFF, the last byte of the bank).\<close>

definition example_load_last :: "event list" where
  "example_load_last =
     [M1_INT (nibble_pins 15), M1_INT (nibble_pins 15), M1_INT (nibble_pins 15),
      M1_INT (nibble_pins 11), M1_INT (nibble_pins 0)]"

text \<open>LOAD ADDRESS of 0x14000 (bank 5, offset 0).\<close>

definition example_load_other :: "event list" where
  "example_load_other =
     [M1_INT (nibble_pins 0), M1_INT (nibble_pins 0), M1_INT (nibble_pins 0),
      M1_INT (nibble_pins 4), M1_INT (nibble_pins 1)]"

text \<open>After power-on: address 0x08000 loaded.\<close>

definition example_loaded :: machine where
  "example_loaded = fst (run example_rom example_load initial)"

text \<open>The same, then the start pulse and three clock pulses: a session at bit 3.\<close>

definition example_mid_session :: machine where
  "example_mid_session =
     fst (run example_rom [M0_INT, M0_INT, M0_INT, M0_INT] example_loaded)"

text \<open>
  Address 0x0BFFF loaded, then the start pulse and seven clock pulses: a session about to
  send the last bit of the last byte of bank 2.
\<close>

definition example_last_bit :: machine where
  "example_last_bit =
     fst (run example_rom
            (example_load_last @
             [M0_INT, M0_INT, M0_INT, M0_INT, M0_INT, M0_INT, M0_INT, M0_INT])
            initial)"

text \<open>After power-on: address 0x14000 of another bank loaded.\<close>

definition example_loaded_other :: machine where
  "example_loaded_other = fst (run example_rom example_load_other initial)"

text \<open>After power-on: two nibbles of an address received.\<close>

definition example_partial_load :: machine where
  "example_partial_load =
     fst (run example_rom [M1_INT (nibble_pins 15), M1_INT (nibble_pins 15)] initial)"

text \<open>
  LOAD ADDRESS of 0x3FFFF (the last address of the 18-bit range) and the start pulse: a
  session at the first bit of that byte.
\<close>

definition example_session_top :: machine where
  "example_session_top =
     fst (run example_rom
            [M1_INT (nibble_pins 15), M1_INT (nibble_pins 15), M1_INT (nibble_pins 15),
             M1_INT (nibble_pins 15), M1_INT (nibble_pins 3), M0_INT]
            initial)"

section \<open>Properties\<close>

subsection \<open>One interrupt\<close>

lemma data_bit_test:
  "unat k \<le> 7 \<Longrightarrow> ((ucast (b :: 8 word) AND 2 ^ unat (k :: 8 word)) = (0 :: 16 word)) = (\<not> bit b (unat k))"
proof -
  assume k: "unat k \<le> 7"
  have "bit (ucast b :: 16 word) (unat k) = bit b (unat k)"
    using k by (simp add: bit_ucast_iff)
  then show ?thesis
    by (simp only: bit_iff_and_push_bit_not_eq_0 [of "ucast b :: 16 word" "unat k"] push_bit_of_1) blast
qed

lemma isr_m0_owned_mid:
  assumes "readDataActive t = TRUE" "bankActiveFlag t = TRUE" "add8_consistent (t, h)"
    and "currentBit t < 7"
  shows "isr_m0 rom (t, h) =
     ((t\<lparr>add8InputFlag := FALSE, currentBit := currentBit t + 1\<rparr>,
       h\<lparr>ADD8_DDR := True, ADD8_PORT := bit (currentByte t) (unat (currentBit t))\<rparr>),
      (if add8InputFlag t = TRUE then [ADD8_DDR_Set] else []) @
      [port_write (bit (currentByte t) (unat (currentBit t)))])"
proof -
  have k: "unat (currentBit t) \<le> 7" and n: "\<not> currentBit t + 1 > 7"
    using assms(4) by (simp_all add: word_less_nat_alt word_le_nat_alt unat_word_ariths)
  show ?thesis
    using assms(1-3) n
    by (auto simp add: isr_m0_def Let_def data_bit_test [OF k] port_write_def add8_consistent_def)
qed


lemma isr_m0_owned_last:
  assumes "readDataActive t = TRUE" "bankActiveFlag t = TRUE" "add8_consistent (t, h)"
    and "currentBit t = 7"
  shows "isr_m0 rom (t, h) =
     ((t\<lparr>add8InputFlag := FALSE, currentBit := 0, address := address t + 1,
         currentByte := (if drop_bit 14 ((address t + 1) AND 0x3C000) = PHROM_BANK rom
                         then phromData rom ((address t + 1) AND 0x3FFF) else 0xFF),
         bankActiveFlag := (if drop_bit 14 ((address t + 1) AND 0x3C000) = PHROM_BANK rom
                            then TRUE else FALSE)\<rparr>,
       h\<lparr>ADD8_DDR := True, ADD8_PORT := bit (currentByte t) 7,
         DEBUG2_PORT := (drop_bit 14 ((address t + 1) AND 0x3C000) = PHROM_BANK rom)\<rparr>),
      (if add8InputFlag t = TRUE then [ADD8_DDR_Set] else []) @
      [port_write (bit (currentByte t) 7)])"
proof -
  have k: "unat (currentBit t) \<le> 7"
    using assms(4) by simp
  show ?thesis
    using assms data_bit_test [OF k, of "currentByte t"]
    by (auto simp add: isr_m0_def Let_def port_write_def add8_consistent_def)
qed

lemma isr_m0_unowned_mid:
  assumes "readDataActive t = TRUE" "bankActiveFlag t \<noteq> TRUE" "add8_consistent (t, h)"
    and "currentBit t < 7"
  shows "isr_m0 rom (t, h) =
     (if add8InputFlag t = FALSE
      then ((t\<lparr>add8InputFlag := TRUE, currentBit := currentBit t + 1\<rparr>,
             h\<lparr>ADD8_DDR := False, ADD8_PORT := False\<rparr>), [ADD8_DDR_Clear, ADD8_PORT_Clear])
      else ((t\<lparr>currentBit := currentBit t + 1\<rparr>, h), []))"
proof -
  have n: "\<not> currentBit t + 1 > 7"
    using assms(4) by (simp add: word_less_nat_alt word_le_nat_alt unat_word_ariths)
  show ?thesis
    using assms(1-3) n
    by (auto simp add: isr_m0_def Let_def add8_consistent_def)
qed


lemma isr_m0_unowned_last:
  assumes "readDataActive t = TRUE" "bankActiveFlag t \<noteq> TRUE" "add8_consistent (t, h)"
    and "currentBit t = 7"
  shows "isr_m0 rom (t, h) =
     ((t\<lparr>add8InputFlag := TRUE, currentBit := 0, address := address t + 1,
         currentByte := (if drop_bit 14 ((address t + 1) AND 0x3C000) = PHROM_BANK rom
                         then phromData rom ((address t + 1) AND 0x3FFF) else 0xFF),
         bankActiveFlag := (if drop_bit 14 ((address t + 1) AND 0x3C000) = PHROM_BANK rom
                            then TRUE else FALSE)\<rparr>,
       (if add8InputFlag t = FALSE then h\<lparr>ADD8_DDR := False, ADD8_PORT := False\<rparr> else h)
        \<lparr>DEBUG2_PORT := (drop_bit 14 ((address t + 1) AND 0x3C000) = PHROM_BANK rom)\<rparr>),
      (if add8InputFlag t = FALSE then [ADD8_DDR_Clear, ADD8_PORT_Clear] else []))"
  using assms by (auto simp add: isr_m0_def Let_def add8_consistent_def)

lemma isr_m0_start:
  "readDataActive t \<noteq> TRUE \<Longrightarrow> validAddressLoadedFlag t \<noteq> FALSE \<Longrightarrow>
   isr_m0 rom (t, h) =
     ((t\<lparr>readDataActive := TRUE,
         currentByte := (if drop_bit 14 (address t AND 0x3C000) = PHROM_BANK rom
                         then phromData rom (address t AND 0x3FFF) else 0xFF),
         currentBit := 0,
         bankActiveFlag := (if drop_bit 14 (address t AND 0x3C000) = PHROM_BANK rom
                            then TRUE else FALSE)\<rparr>,
       h\<lparr>DEBUG1_PORT := True,
         DEBUG2_PORT := (drop_bit 14 (address t AND 0x3C000) = PHROM_BANK rom),
         EICRA_M0_ISC1 := True, EICRA_M0_ISC0 := True\<rparr>), [])"
  by (simp add: isr_m0_def Let_def)

lemma machine_inv_initial: "machine_inv initial"
  by (simp add: machine_inv_def add8_consistent_def initial_def main_setup_def
      initialiseHardware_def power_on_def)


lemma isr_m0_add8_flag:
  "add8InputFlag (fst (fst (isr_m0 rom (t, h)))) =
     (if readDataActive t = TRUE
      then (if bankActiveFlag t = TRUE
            then (if add8InputFlag t = TRUE then FALSE else add8InputFlag t)
            else (if add8InputFlag t = FALSE then TRUE else add8InputFlag t))
      else add8InputFlag t)"
  by (simp add: isr_m0_def Let_def)

lemma isr_m0_add8_ddr:
  "ADD8_DDR (snd (fst (isr_m0 rom (t, h)))) =
     (if readDataActive t = TRUE
      then (if bankActiveFlag t = TRUE
            then (if add8InputFlag t = TRUE then True else ADD8_DDR h)
            else (if add8InputFlag t = FALSE then False else ADD8_DDR h))
      else ADD8_DDR h)"
  by (simp add: isr_m0_def Let_def)

lemma isr_m0_active:
  "readDataActive (fst (fst (isr_m0 rom (t, h)))) =
     (if readDataActive t = TRUE \<or> validAddressLoadedFlag t \<noteq> FALSE then TRUE
      else readDataActive t)"
  by (simp add: isr_m0_def Let_def)

lemma isr_m1_eq:
  "isr_m1 p (t, h) =
     ((t\<lparr>readDataActive := FALSE, bankActiveFlag := FALSE,
         add8InputFlag := (if add8InputFlag t = FALSE then TRUE else add8InputFlag t),
         address :=
           (let a = (if loadAddressNibble t = 0 then 0 else address t) OR
                    (if loadAddressNibble t = 0 then read_nibble p
                     else if loadAddressNibble t = 1 then push_bit 4 (read_nibble p)
                     else if loadAddressNibble t = 2 then push_bit 8 (read_nibble p)
                     else if loadAddressNibble t = 3 then push_bit 12 (read_nibble p)
                     else if loadAddressNibble t = 4 then push_bit 16 (read_nibble p)
                     else 0)
            in if loadAddressNibble t + 1 > 4 then a AND 0x3FFFF else a),
         loadAddressNibble := (if loadAddressNibble t + 1 > 4 then 0 else loadAddressNibble t + 1),
         validAddressLoadedFlag := (if loadAddressNibble t + 1 > 4 then TRUE else FALSE),
         bankSelectNumber :=
           (let a = (if loadAddressNibble t = 0 then 0 else address t) OR
                    (if loadAddressNibble t = 0 then read_nibble p
                     else if loadAddressNibble t = 1 then push_bit 4 (read_nibble p)
                     else if loadAddressNibble t = 2 then push_bit 8 (read_nibble p)
                     else if loadAddressNibble t = 3 then push_bit 12 (read_nibble p)
                     else if loadAddressNibble t = 4 then push_bit 16 (read_nibble p)
                     else 0)
            in if loadAddressNibble t + 1 > 4 then drop_bit 14 (a AND 0x3C000)
               else bankSelectNumber t)\<rparr>,
       (if add8InputFlag t = FALSE then h\<lparr>ADD8_DDR := False, ADD8_PORT := False\<rparr> else h)
        \<lparr>SPCR := 0, DEBUG1_PORT := False, DEBUG2_PORT := False, EICRA_M0_ISC1 := True,
          EICRA_M0_ISC0 := False, EIFR_M0_INTF := False, EIMSK_M0_INT := True,
          DEBUG0_PORT := (loadAddressNibble t + 1 > 4)\<rparr>),
      (if add8InputFlag t = FALSE then [ADD8_DDR_Clear, ADD8_PORT_Clear] else []))"
proof -
  consider "loadAddressNibble t = 0" | "loadAddressNibble t = 1" | "loadAddressNibble t = 2"
    | "loadAddressNibble t = 3" | "loadAddressNibble t = 4"
    | "loadAddressNibble t \<noteq> 0" "loadAddressNibble t \<noteq> 1" "loadAddressNibble t \<noteq> 2"
      "loadAddressNibble t \<noteq> 3" "loadAddressNibble t \<noteq> 4" "loadAddressNibble t + 1 > 4"
    | "loadAddressNibble t \<noteq> 0" "loadAddressNibble t \<noteq> 1" "loadAddressNibble t \<noteq> 2"
      "loadAddressNibble t \<noteq> 3" "loadAddressNibble t \<noteq> 4" "\<not> loadAddressNibble t + 1 > 4"
    by blast
  then show ?thesis
  proof cases
    case 1
    then show ?thesis by (simp add: isr_m1_def Let_def)
  next
    case 2
    then show ?thesis by (simp add: isr_m1_def Let_def)
  next
    case 3
    then show ?thesis by (simp add: isr_m1_def Let_def)
  next
    case 4
    then show ?thesis by (simp add: isr_m1_def Let_def)
  next
    case 5
    then show ?thesis by (simp add: isr_m1_def Let_def)
  next
    case 6
    then show ?thesis by (simp add: isr_m1_def Let_def)
  next
    case 7
    then show ?thesis by (simp add: isr_m1_def Let_def)
  qed
qed

lemma isr_m1_add8_flag:
  "add8InputFlag (fst (fst (isr_m1 p (t, h)))) =
     (if add8InputFlag t = FALSE then TRUE else add8InputFlag t)"
  by (simp add: isr_m1_eq)

lemma isr_m1_add8_ddr:
  "ADD8_DDR (snd (fst (isr_m1 p (t, h)))) =
     (if add8InputFlag t = FALSE then False else ADD8_DDR h)"
  by (simp add: isr_m1_eq)

lemma isr_m1_cancel:
  "readDataActive (fst (fst (isr_m1 p (t, h)))) = FALSE"
  "bankActiveFlag (fst (fst (isr_m1 p (t, h)))) = FALSE"
  by (simp_all add: isr_m1_eq)

lemma machine_inv_isr_m0: "machine_inv s \<Longrightarrow> machine_inv (fst (isr_m0 rom s))"
proof -
  assume inv: "machine_inv s"
  obtain t h where s: "s = (t, h)"
    by (cases s)
  from inv show ?thesis
    unfolding s machine_inv_def add8_consistent_def
    by (simp only: isr_m0_add8_flag isr_m0_add8_ddr isr_m0_active fst_conv snd_conv)
      (auto split: if_splits)
qed

lemma machine_inv_isr_m1: "machine_inv s \<Longrightarrow> machine_inv (fst (isr_m1 p s))"
proof -
  assume inv: "machine_inv s"
  obtain t h where s: "s = (t, h)"
    by (cases s)
  from inv show ?thesis
    unfolding s machine_inv_def add8_consistent_def
    by (simp only: isr_m1_add8_flag isr_m1_add8_ddr isr_m1_cancel fst_conv snd_conv)
      (auto split: if_splits)
qed

lemma machine_inv_step: "machine_inv s \<Longrightarrow> machine_inv (fst (step rom e s))"
  by (cases e) (simp_all add: machine_inv_isr_m0 machine_inv_isr_m1)

lemma machine_inv_run: "machine_inv s \<Longrightarrow> machine_inv (fst (run rom es s))"
proof (induction es arbitrary: s)
  case Nil
  then show ?case by simp
next
  case (Cons e es)
  from Cons.prems have "machine_inv (fst (step rom e s))"
    by (rule machine_inv_step)
  then have "machine_inv (fst (run rom es (fst (step rom e s))))"
    by (rule Cons.IH)
  then show ?case
    by (simp add: case_prod_unfold)
qed

text \<open>Every state the firmware reaches satisfies the invariant.\<close>

lemma reached_machine_inv: "machine_inv (fst (run rom es initial))"
  using machine_inv_initial by (rule machine_inv_run)

lemma reached_add8_consistent: "add8_consistent (fst (run rom es initial))"
  using reached_machine_inv [of rom es] by (simp add: machine_inv_def)

lemma read_nibble_less: "read_nibble p < 16"
  by (simp add: read_nibble_def Let_def)

lemma read_nibble_pins [simp]:
  "read_nibble (nibble_pins 0) = 0" "read_nibble (nibble_pins 1) = 1"
  "read_nibble (nibble_pins 4) = 4" "read_nibble (nibble_pins 8) = 8"
  "read_nibble (nibble_pins 11) = 11" "read_nibble (nibble_pins 15) = 15"
  by (simp_all add: read_nibble_def nibble_pins_def Let_def)

lemma byte_bits_upt: "byte_bits b = map (bit b) [0..<8]"
  by (simp add: byte_bits_def upt_rec eval_nat_numeral)

lemmas example_defs = example_data_def example_rom_def example_load_def
  example_load_last_def example_load_other_def
  initial_def main_setup_def initialiseHardware_def power_on_def

lemma example_loaded_eq:
  "example_loaded =
     (\<lparr>address = 0x8000, bankSelectNumber = 2, loadAddressNibble = 0,
       validAddressLoadedFlag = 1, readDataActive = 0, currentBit = 0, currentByte = 0,
       add8InputFlag = 1, bankActiveFlag = 0\<rparr>,
      \<lparr>ADD8_DDR = False, ADD8_PORT = False, DEBUG0_PORT = True, DEBUG1_PORT = False,
       DEBUG2_PORT = False, EICRA_M0_ISC1 = True, EICRA_M0_ISC0 = False,
       EIFR_M0_INTF = False, EIMSK_M0_INT = True, SPCR = 0\<rparr>)"
  by (simp add: example_loaded_def example_defs isr_m1_eq Let_def)

lemma example_mid_session_eq:
  "example_mid_session =
     (\<lparr>address = 0x8000, bankSelectNumber = 2, loadAddressNibble = 0,
       validAddressLoadedFlag = 1, readDataActive = 1, currentBit = 3, currentByte = 0xA5,
       add8InputFlag = 0, bankActiveFlag = 1\<rparr>,
      \<lparr>ADD8_DDR = True, ADD8_PORT = True, DEBUG0_PORT = True, DEBUG1_PORT = True,
       DEBUG2_PORT = True, EICRA_M0_ISC1 = True, EICRA_M0_ISC0 = True,
       EIFR_M0_INTF = False, EIMSK_M0_INT = True, SPCR = 0\<rparr>)"
  by (simp add: example_mid_session_def example_loaded_eq example_defs isr_m0_def Let_def)

lemma example_last_bit_eq:
  "example_last_bit =
     (\<lparr>address = 0xBFFF, bankSelectNumber = 2, loadAddressNibble = 0,
       validAddressLoadedFlag = 1, readDataActive = 1, currentBit = 7, currentByte = 0x3C,
       add8InputFlag = 0, bankActiveFlag = 1\<rparr>,
      \<lparr>ADD8_DDR = True, ADD8_PORT = False, DEBUG0_PORT = True, DEBUG1_PORT = True,
       DEBUG2_PORT = True, EICRA_M0_ISC1 = True, EICRA_M0_ISC0 = True,
       EIFR_M0_INTF = False, EIMSK_M0_INT = True, SPCR = 0\<rparr>)"
  by (simp add: example_last_bit_def example_defs isr_m1_eq isr_m0_def Let_def)

lemma example_loaded_other_eq:
  "example_loaded_other =
     (\<lparr>address = 0x14000, bankSelectNumber = 5, loadAddressNibble = 0,
       validAddressLoadedFlag = 1, readDataActive = 0, currentBit = 0, currentByte = 0,
       add8InputFlag = 1, bankActiveFlag = 0\<rparr>,
      \<lparr>ADD8_DDR = False, ADD8_PORT = False, DEBUG0_PORT = True, DEBUG1_PORT = False,
       DEBUG2_PORT = False, EICRA_M0_ISC1 = True, EICRA_M0_ISC0 = False,
       EIFR_M0_INTF = False, EIMSK_M0_INT = True, SPCR = 0\<rparr>)"
  by (simp add: example_loaded_other_def example_defs isr_m1_eq Let_def)

lemma example_partial_load_eq:
  "example_partial_load =
     (\<lparr>address = 0xFF, bankSelectNumber = 0, loadAddressNibble = 2,
       validAddressLoadedFlag = 0, readDataActive = 0, currentBit = 0, currentByte = 0,
       add8InputFlag = 1, bankActiveFlag = 0\<rparr>,
      \<lparr>ADD8_DDR = False, ADD8_PORT = False, DEBUG0_PORT = False, DEBUG1_PORT = False,
       DEBUG2_PORT = False, EICRA_M0_ISC1 = True, EICRA_M0_ISC0 = False,
       EIFR_M0_INTF = False, EIMSK_M0_INT = True, SPCR = 0\<rparr>)"
  by (simp add: example_partial_load_def example_defs isr_m1_eq Let_def)

subsection \<open>Ranges\<close>

lemma isr_m0_current_bit_all:
  "currentBit (fst (fst (isr_m0 rom (t, h)))) =
     (if readDataActive t = TRUE
      then (if currentBit t + 1 > 7 then 0 else currentBit t + 1)
      else if validAddressLoadedFlag t = FALSE then currentBit t else 0)"
  by (simp add: isr_m0_def Let_def)

lemma isr_m0_current_bit_le:
  "currentBit t \<le> 7 \<Longrightarrow> currentBit (fst (fst (isr_m0 rom (t, h)))) \<le> 7"
  by (simp only: isr_m0_current_bit_all) (auto simp add: not_less)

lemma isr_m1_current_bit: "currentBit (fst (fst (isr_m1 p (t, h)))) = currentBit t"
  by (simp add: isr_m1_eq)

lemma current_bit_step:
  "currentBit (fst s) \<le> 7 \<Longrightarrow> currentBit (fst (fst (step rom e s))) \<le> 7"
  by (cases s; cases e) (simp_all add: isr_m0_current_bit_le isr_m1_current_bit)

lemma current_bit_run:
  "currentBit (fst s) \<le> 7 \<Longrightarrow> currentBit (fst (fst (run rom es s))) \<le> 7"
proof (induction es arbitrary: s)
  case Nil
  then show ?case by simp
next
  case (Cons e es)
  from Cons.prems have "currentBit (fst (fst (step rom e s))) \<le> 7"
    by (rule current_bit_step)
  then have "currentBit (fst (fst (run rom es (fst (step rom e s))))) \<le> 7"
    by (rule Cons.IH)
  then show ?case
    by (simp add: case_prod_unfold)
qed

text \<open>
  In every state the firmware reaches \<open>currentBit\<close> is at most 7, so the shift
  \<open>1 << currentBit\<close> of the READ DATA handler stays within the 16 bits of an \<open>int\<close>.
\<close>

lemma reached_current_bit: "currentBit (fst (fst (run rom es initial))) \<le> 7"
proof -
  have "currentBit (fst initial) \<le> 7"
    by (simp add: initial_def main_setup_def initialiseHardware_def power_on_def)
  then show ?thesis
    by (rule current_bit_run)
qed

lemma nibble_cases:
  "(n :: 32 word) < 16 \<Longrightarrow>
   n \<in> {0, 1, 2, 3, 4, 5, 6, 7, 8, 9, 10, 11, 12, 13, 14, 15}"
proof -
  assume "n < 16"
  then have "unat n < 16"
    by (simp add: word_less_nat_alt)
  then show ?thesis
    by (simp add: word_unat_eq_iff) arith
qed

text \<open>Every 4-bit value is the nibble of some pin levels.\<close>

lemma read_nibble_nibble_pins: "n < 16 \<Longrightarrow> read_nibble (nibble_pins n) = n"
proof -
  assume "n < 16"
  then have "n \<in> {0, 1, 2, 3, 4, 5, 6, 7, 8, 9, 10, 11, 12, 13, 14, 15}"
    by (rule nibble_cases)
  then show ?thesis
    by (auto simp add: read_nibble_def nibble_pins_def Let_def)
qed

subsection \<open>LOAD ADDRESS cancels a read session\<close>

text \<open>
  C2. In every state, whatever the bit position of a read session, one LOAD ADDRESS
  interrupt leaves \<open>readDataActive\<close> and \<open>bankActiveFlag\<close> FALSE. In every state in
  which \<open>add8InputFlag\<close> agrees with the direction register the ADD8 pin is an input
  afterwards; every state the firmware reaches from start-up is such a state.
\<close>

theorem load_address_cancels_read:
  "readDataActive (fst (fst (isr_m1 p (t, h)))) = FALSE \<and>
   bankActiveFlag (fst (fst (isr_m1 p (t, h)))) = FALSE \<and>
   (add8_consistent (t, h) \<longrightarrow>
      add8_line (snd (fst (isr_m1 p (t, h)))) = Released \<and>
      add8InputFlag (fst (fst (isr_m1 p (t, h)))) = TRUE \<and>
      snd (isr_m1 p (t, h)) = (if ADD8_DDR h then [ADD8_DDR_Clear, ADD8_PORT_Clear] else [])) \<and>
   add8_line (snd (fst (isr_m1 p (fst (run rom es initial))))) = Released"
proof -
  have released: "add8_line (snd (fst (isr_m1 p (u, g)))) = Released \<and>
      add8InputFlag (fst (fst (isr_m1 p (u, g)))) = TRUE \<and>
      snd (isr_m1 p (u, g)) = (if ADD8_DDR g then [ADD8_DDR_Clear, ADD8_PORT_Clear] else [])"
    if "add8_consistent (u, g)" for u g
    using that by (auto simp add: isr_m1_eq add8_consistent_def add8_line_def)
  have "add8_consistent (fst (fst (run rom es initial)), snd (fst (run rom es initial)))"
    using reached_add8_consistent [of rom es] by simp
  then have "add8_line (snd (fst (isr_m1 p (fst (fst (run rom es initial)),
      snd (fst (run rom es initial)))))) = Released"
    using released by blast
  then show ?thesis
    using released [of t h] by (simp add: isr_m1_cancel)
qed

theorem load_address_cancels_read_witness:
  "readDataActive (fst example_mid_session) = TRUE \<and>
   currentBit (fst example_mid_session) = 3 \<and>
   add8_line (snd example_mid_session) = Driven True \<and>
   readDataActive (fst (fst (isr_m1 (nibble_pins 0) example_mid_session))) = FALSE \<and>
   bankActiveFlag (fst (fst (isr_m1 (nibble_pins 0) example_mid_session))) = FALSE \<and>
   add8_line (snd (fst (isr_m1 (nibble_pins 0) example_mid_session))) = Released \<and>
   snd (isr_m1 (nibble_pins 0) example_mid_session) = [ADD8_DDR_Clear, ADD8_PORT_Clear]"
proof -
  have c: "add8_consistent (fst example_mid_session, snd example_mid_session)"
    by (simp add: example_mid_session_eq add8_consistent_def)
  show ?thesis
    using c load_address_cancels_read
      [of "nibble_pins 0" "fst example_mid_session" "snd example_mid_session"]
    by (simp add: example_mid_session_eq add8_line_def)
qed

subsection \<open>The dummy read\<close>

text \<open>
  C4. A READ DATA interrupt outside a session and without a valid address writes no register
  of the ADD8 pin, leaves every I/O register as it was, and sets \<open>address\<close> and
  \<open>loadAddressNibble\<close> to 0, changing no other field.
\<close>

theorem dummy_read_resets:
  assumes "readDataActive t \<noteq> TRUE" and "validAddressLoadedFlag t = FALSE"
  shows "isr_m0 rom (t, h) = ((t\<lparr>address := 0, loadAddressNibble := 0\<rparr>, h), [])"
  using assms by (simp add: isr_m0_def)

theorem dummy_read_resets_witness:
  "address (fst example_partial_load) = 0xFF \<and>
   loadAddressNibble (fst example_partial_load) = 2 \<and>
   address (fst (fst (isr_m0 example_rom example_partial_load))) = 0 \<and>
   loadAddressNibble (fst (fst (isr_m0 example_rom example_partial_load))) = 0 \<and>
   snd (fst (isr_m0 example_rom example_partial_load)) = snd example_partial_load \<and>
   snd (isr_m0 example_rom example_partial_load) = []"
proof -
  have a: "readDataActive (fst example_partial_load) \<noteq> TRUE"
    and v: "validAddressLoadedFlag (fst example_partial_load) = FALSE"
    by (simp_all add: example_partial_load_eq)
  show ?thesis
    using dummy_read_resets [OF a v, of example_rom "snd example_partial_load"]
    by (simp add: example_partial_load_eq)
qed

subsection \<open>Loading an address\<close>

lemma bank_bits: "drop_bit 14 (x AND 0x3C000) = drop_bit 14 x AND (0xF :: 32 word)"
  by simp

text \<open>
  Five LOAD ADDRESS interrupts, in terms of what the handler reads from the pins at each.
\<close>

lemma five_loads_read_nibble:
  assumes "loadAddressNibble t = 0"
  shows "address (fst (fst (run rom [M1_INT p0, M1_INT p1, M1_INT p2, M1_INT p3, M1_INT p4] (t, h)))) =
           spec_accumulate (read_nibble p0) (read_nibble p1) (read_nibble p2)
             (read_nibble p3) (read_nibble p4) AND 0x3FFFF \<and>
         validAddressLoadedFlag
           (fst (fst (run rom [M1_INT p0, M1_INT p1, M1_INT p2, M1_INT p3, M1_INT p4] (t, h)))) = TRUE \<and>
         loadAddressNibble
           (fst (fst (run rom [M1_INT p0, M1_INT p1, M1_INT p2, M1_INT p3, M1_INT p4] (t, h)))) = 0 \<and>
         bankSelectNumber
           (fst (fst (run rom [M1_INT p0, M1_INT p1, M1_INT p2, M1_INT p3, M1_INT p4] (t, h)))) =
           drop_bit 14 (spec_accumulate (read_nibble p0) (read_nibble p1) (read_nibble p2)
             (read_nibble p3) (read_nibble p4)) AND 0xF"
  using assms
  by (simp add: isr_m1_eq Let_def spec_accumulate_def bank_bits or.assoc)

text \<open>
  C1. Let \<open>n0\<close> to \<open>n4\<close> be any five 4-bit values, each put on the address pins as
  ADD1 = bit 0, ADD2 = bit 1, ADD4 = bit 2, ADD8 = bit 3. Five LOAD ADDRESS interrupts
  carrying them, from a state with \<open>loadAddressNibble = 0\<close>, leave in \<open>address\<close> the
  low 18 bits of \<open>n0 | n1<<4 | n2<<8 | n3<<12 | n4<<16\<close>, set
  \<open>validAddressLoadedFlag\<close>, return \<open>loadAddressNibble\<close> to 0, and leave in
  \<open>bankSelectNumber\<close> bits 14 to 17 of the unmasked value.
\<close>

theorem load_address_five_nibbles:
  assumes "loadAddressNibble t = 0"
    and "n0 < 16" and "n1 < 16" and "n2 < 16" and "n3 < 16" and "n4 < 16"
  shows "address (fst (fst (run rom
             [M1_INT (nibble_pins n0), M1_INT (nibble_pins n1), M1_INT (nibble_pins n2),
              M1_INT (nibble_pins n3), M1_INT (nibble_pins n4)] (t, h)))) =
           spec_accumulate n0 n1 n2 n3 n4 AND 0x3FFFF \<and>
         validAddressLoadedFlag (fst (fst (run rom
             [M1_INT (nibble_pins n0), M1_INT (nibble_pins n1), M1_INT (nibble_pins n2),
              M1_INT (nibble_pins n3), M1_INT (nibble_pins n4)] (t, h)))) = TRUE \<and>
         loadAddressNibble (fst (fst (run rom
             [M1_INT (nibble_pins n0), M1_INT (nibble_pins n1), M1_INT (nibble_pins n2),
              M1_INT (nibble_pins n3), M1_INT (nibble_pins n4)] (t, h)))) = 0 \<and>
         bankSelectNumber (fst (fst (run rom
             [M1_INT (nibble_pins n0), M1_INT (nibble_pins n1), M1_INT (nibble_pins n2),
              M1_INT (nibble_pins n3), M1_INT (nibble_pins n4)] (t, h)))) =
           drop_bit 14 (spec_accumulate n0 n1 n2 n3 n4) AND 0xF"
proof -
  have n: "read_nibble (nibble_pins n0) = n0" "read_nibble (nibble_pins n1) = n1"
    "read_nibble (nibble_pins n2) = n2" "read_nibble (nibble_pins n3) = n3"
    "read_nibble (nibble_pins n4) = n4"
    using assms(2-6) by (simp_all only: read_nibble_nibble_pins)
  show ?thesis
    using five_loads_read_nibble [OF assms(1), of rom "nibble_pins n0" "nibble_pins n1"
        "nibble_pins n2" "nibble_pins n3" "nibble_pins n4" h]
    by (simp only: n)
qed

theorem load_address_five_nibbles_witness:
  "loadAddressNibble (fst initial) = 0 \<and>
   address (fst (fst (run example_rom
       [M1_INT (nibble_pins 10), M1_INT (nibble_pins 5), M1_INT (nibble_pins 3),
        M1_INT (nibble_pins 12), M1_INT (nibble_pins 6)] initial))) = 0x2C35A \<and>
   validAddressLoadedFlag (fst (fst (run example_rom
       [M1_INT (nibble_pins 10), M1_INT (nibble_pins 5), M1_INT (nibble_pins 3),
        M1_INT (nibble_pins 12), M1_INT (nibble_pins 6)] initial))) = TRUE \<and>
   loadAddressNibble (fst (fst (run example_rom
       [M1_INT (nibble_pins 10), M1_INT (nibble_pins 5), M1_INT (nibble_pins 3),
        M1_INT (nibble_pins 12), M1_INT (nibble_pins 6)] initial))) = 0 \<and>
   bankSelectNumber (fst (fst (run example_rom
       [M1_INT (nibble_pins 10), M1_INT (nibble_pins 5), M1_INT (nibble_pins 3),
        M1_INT (nibble_pins 12), M1_INT (nibble_pins 6)] initial))) = 11"
proof -
  have i: "loadAddressNibble (fst initial) = 0"
    by (simp add: example_defs)
  have n: "(10 :: 32 word) < 16" "(5 :: 32 word) < 16" "(3 :: 32 word) < 16"
    "(12 :: 32 word) < 16" "(6 :: 32 word) < 16"
    by simp_all
  have a: "spec_accumulate 10 5 3 12 6 = 0x6C35A"
    by (simp add: spec_accumulate_def)
  show ?thesis
    using i load_address_five_nibbles [OF i n, of example_rom "snd initial"]
    by (simp add: a)
qed

subsection \<open>The range of the nibble index\<close>

lemma isr_m1_nibble:
  "loadAddressNibble (fst (fst (isr_m1 p (t, h)))) =
     (if loadAddressNibble t + 1 > 4 then 0 else loadAddressNibble t + 1)"
  by (simp add: isr_m1_eq)

lemma isr_m0_nibble:
  "loadAddressNibble (fst (fst (isr_m0 rom (t, h)))) =
     (if readDataActive t \<noteq> TRUE \<and> validAddressLoadedFlag t = FALSE then 0
      else loadAddressNibble t)"
  by (simp add: isr_m0_def Let_def)

lemma nibble_range_step:
  "loadAddressNibble (fst s) \<in> {0, 1, 2, 3, 4} \<Longrightarrow>
   loadAddressNibble (fst (fst (step rom e s))) \<in> {0, 1, 2, 3, 4}"
proof -
  assume r: "loadAddressNibble (fst s) \<in> {0, 1, 2, 3, 4}"
  obtain t h where s: "s = (t, h)"
    by (cases s)
  show ?thesis
  proof (cases e)
    case M0_INT
    with r show ?thesis
      by (simp only: s step.simps isr_m0_nibble fst_conv split: if_splits) simp
  next
    case (M1_INT p)
    with r show ?thesis
      by (simp only: s step.simps isr_m1_nibble fst_conv) auto
  qed
qed

lemma nibble_range_run:
  "loadAddressNibble (fst s) \<in> {0, 1, 2, 3, 4} \<Longrightarrow>
   loadAddressNibble (fst (fst (run rom es s))) \<in> {0, 1, 2, 3, 4}"
proof (induction es arbitrary: s)
  case Nil
  then show ?case by simp
next
  case (Cons e es)
  from Cons.prems have "loadAddressNibble (fst (fst (step rom e s))) \<in> {0, 1, 2, 3, 4}"
    by (rule nibble_range_step)
  then have "loadAddressNibble (fst (fst (run rom es (fst (step rom e s))))) \<in> {0, 1, 2, 3, 4}"
    by (rule Cons.IH)
  then show ?case
    by (simp add: case_prod_unfold)
qed

text \<open>
  C10. \<open>loadAddressNibble\<close> is one of 0, 1, 2, 3, 4 in the initial state and after any
  sequence of interrupts. From such a value a LOAD ADDRESS interrupt moves it to the next one,
  and from 4 back to 0; a READ DATA interrupt keeps it in range, and the dummy read sets it
  to 0.
\<close>

theorem load_nibble_index_range:
  "loadAddressNibble (fst initial) \<in> {0, 1, 2, 3, 4} \<and>
   loadAddressNibble (fst (fst (run rom es initial))) \<in> {0, 1, 2, 3, 4} \<and>
   (loadAddressNibble t \<in> {0, 1, 2, 3, 4} \<longrightarrow>
      loadAddressNibble (fst (fst (isr_m1 p (t, h)))) \<in> {0, 1, 2, 3, 4} \<and>
      loadAddressNibble (fst (fst (isr_m1 p (t, h)))) =
        (if loadAddressNibble t = 4 then 0 else loadAddressNibble t + 1) \<and>
      loadAddressNibble (fst (fst (isr_m0 rom (t, h)))) \<in> {0, 1, 2, 3, 4}) \<and>
   (readDataActive t \<noteq> TRUE \<and> validAddressLoadedFlag t = FALSE \<longrightarrow>
      loadAddressNibble (fst (fst (isr_m0 rom (t, h)))) = 0)"
proof -
  have i: "loadAddressNibble (fst initial) \<in> {0, 1, 2, 3, 4}"
    by (simp add: example_defs)
  have m1: "loadAddressNibble (fst (fst (isr_m1 p (t, h)))) \<in> {0, 1, 2, 3, 4} \<and>
      loadAddressNibble (fst (fst (isr_m1 p (t, h)))) =
        (if loadAddressNibble t = 4 then 0 else loadAddressNibble t + 1)"
    if "loadAddressNibble t \<in> {0, 1, 2, 3, 4}"
    using that by (simp only: isr_m1_nibble) auto
  have m0: "loadAddressNibble (fst (fst (isr_m0 rom (t, h)))) \<in> {0, 1, 2, 3, 4}"
    if "loadAddressNibble t \<in> {0, 1, 2, 3, 4}"
    using nibble_range_step [of "(t, h)" rom M0_INT] that by simp
  have d: "loadAddressNibble (fst (fst (isr_m0 rom (t, h)))) = 0"
    if "readDataActive t \<noteq> TRUE \<and> validAddressLoadedFlag t = FALSE"
    using that by (simp add: isr_m0_nibble)
  from i m1 m0 d nibble_range_run [OF i, of rom es] show ?thesis
    by blast
qed

theorem load_nibble_index_range_witness:
  "loadAddressNibble (fst example_partial_load) = 2 \<and>
   loadAddressNibble (fst (fst (isr_m1 (nibble_pins 0) example_partial_load))) = 3 \<and>
   loadAddressNibble (fst (fst (isr_m0 example_rom example_partial_load))) = 0 \<and>
   loadAddressNibble (fst example_last_bit) = 0 \<and>
   loadAddressNibble (fst (fst (isr_m0 example_rom example_last_bit))) = 0"
proof -
  have r: "loadAddressNibble (fst example_partial_load) \<in> {0, 1, 2, 3, 4}"
    and d: "readDataActive (fst example_partial_load) \<noteq> TRUE \<and>
            validAddressLoadedFlag (fst example_partial_load) = FALSE"
    by (simp_all add: example_partial_load_eq)
  show ?thesis
    using r d load_nibble_index_range [of example_rom "[]" "fst example_partial_load"
        "nibble_pins 0" "snd example_partial_load"]
    by (simp add: example_partial_load_eq example_last_bit_eq isr_m0_def Let_def)
qed

subsection \<open>Clocking out one byte\<close>

lemma replicate_8: "replicate 8 x = [x, x, x, x, x, x, x, x]"
  by (simp add: eval_nat_numeral)

lemma owned_byte_clocks:
  assumes "readDataActive t = TRUE" and "bankActiveFlag t = TRUE" and "currentBit t = 0"
    and "add8_consistent (t, h)"
  shows "lines rom (replicate 8 M0_INT) (t, h) = map Driven (byte_bits (currentByte t))"
    and "snd (run rom (replicate 8 M0_INT) (t, h)) =
           (if add8InputFlag t = TRUE then [ADD8_DDR_Set] else []) @
           map port_write (byte_bits (currentByte t))"
  using assms
  by (simp_all add: replicate_8 isr_m0_owned_mid isr_m0_owned_last add8_consistent_def
      add8_line_def byte_bits_def)


lemma unowned_byte_clocks:
  assumes "readDataActive t = TRUE" and "bankActiveFlag t \<noteq> TRUE" and "currentBit t = 0"
    and "add8_consistent (t, h)"
  shows "lines rom (replicate 8 M0_INT) (t, h) = replicate 8 Released"
    and "snd (run rom (replicate 8 M0_INT) (t, h)) =
           (if add8InputFlag t = FALSE then [ADD8_DDR_Clear, ADD8_PORT_Clear] else [])"
proof -
  from assms(4) consider "add8InputFlag t = TRUE" "ADD8_DDR h = False"
    | "add8InputFlag t = FALSE" "ADD8_DDR h = True"
    by (auto simp add: add8_consistent_def)
  then have "lines rom (replicate 8 M0_INT) (t, h) = replicate 8 Released \<and>
    snd (run rom (replicate 8 M0_INT) (t, h)) =
      (if add8InputFlag t = FALSE then [ADD8_DDR_Clear, ADD8_PORT_Clear] else [])"
  proof cases
    case 1
    with assms(1-3) show ?thesis
      by (simp add: replicate_8 isr_m0_unowned_mid isr_m0_unowned_last add8_consistent_def
          add8_line_def)
  next
    case 2
    with assms(1-3) show ?thesis
      by (simp add: replicate_8 isr_m0_unowned_mid isr_m0_unowned_last add8_consistent_def
          add8_line_def)
  qed
  then show "lines rom (replicate 8 M0_INT) (t, h) = replicate 8 Released"
    and "snd (run rom (replicate 8 M0_INT) (t, h)) =
           (if add8InputFlag t = FALSE then [ADD8_DDR_Clear, ADD8_PORT_Clear] else [])"
    by simp_all
qed

lemma start_then_owned_byte:
  assumes "machine_inv (t, h)" and "readDataActive t \<noteq> TRUE"
    and "validAddressLoadedFlag t \<noteq> FALSE" and "bank_of (address t) = PHROM_BANK rom"
  shows "bankActiveFlag (fst (fst (isr_m0 rom (t, h)))) = TRUE"
    and "currentByte (fst (fst (isr_m0 rom (t, h)))) = phromData rom (offset_of (address t))"
    and "lines rom (replicate 8 M0_INT) (fst (isr_m0 rom (t, h))) =
           map Driven (byte_bits (phromData rom (offset_of (address t))))"
    and "snd (run rom (M0_INT # replicate 8 M0_INT) (t, h)) =
           ADD8_DDR_Set # map port_write (byte_bits (phromData rom (offset_of (address t))))"
proof -
  let ?t = "t\<lparr>readDataActive := TRUE,
               currentByte := phromData rom (offset_of (address t)),
               currentBit := 0, bankActiveFlag := TRUE\<rparr>"
  let ?h = "h\<lparr>DEBUG1_PORT := True, DEBUG2_PORT := True, EICRA_M0_ISC1 := True,
               EICRA_M0_ISC0 := True\<rparr>"
  have start: "isr_m0 rom (t, h) = ((?t, ?h), [])"
    using assms(2-4) by (simp add: isr_m0_start bank_of_def offset_of_def)
  have flag: "add8InputFlag t = TRUE" and ddr: "ADD8_DDR h = False"
    using assms(1,2) by (auto simp add: machine_inv_def add8_consistent_def)
  have c: "add8_consistent (?t, ?h)"
    using flag ddr by (simp add: add8_consistent_def)
  have a: "readDataActive ?t = TRUE" and b: "bankActiveFlag ?t = TRUE" and z: "currentBit ?t = 0"
    by simp_all
  show "bankActiveFlag (fst (fst (isr_m0 rom (t, h)))) = TRUE"
    and "currentByte (fst (fst (isr_m0 rom (t, h)))) = phromData rom (offset_of (address t))"
    by (simp_all add: start)
  show "lines rom (replicate 8 M0_INT) (fst (isr_m0 rom (t, h))) =
           map Driven (byte_bits (phromData rom (offset_of (address t))))"
    using owned_byte_clocks(1) [OF a b z c, of rom] by (simp add: start)
  show "snd (run rom (M0_INT # replicate 8 M0_INT) (t, h)) =
           ADD8_DDR_Set # map port_write (byte_bits (phromData rom (offset_of (address t))))"
    using owned_byte_clocks(2) [OF a b z c, of rom] flag
    by (simp add: start case_prod_unfold)
qed

text \<open>
  C3. From a state outside a session with a valid address whose bank is the device's, the
  start pulse and eight clock pulses put on the ADD8 pin, pulse by pulse, bits 0 to 7 of
  \<open>phromData\<close> at the offset of the address: the pin is switched to output once, on the
  first clock pulse, and the port writes are those eight bits in order.
\<close>

theorem read_byte_lsb_first:
  assumes "machine_inv (t, h)" and "readDataActive t \<noteq> TRUE"
    and "validAddressLoadedFlag t \<noteq> FALSE" and "bank_of (address t) = PHROM_BANK rom"
  shows "lines rom (replicate 8 M0_INT) (fst (isr_m0 rom (t, h))) =
           map Driven (byte_bits (phromData rom (offset_of (address t)))) \<and>
         snd (run rom (M0_INT # replicate 8 M0_INT) (t, h)) =
           ADD8_DDR_Set # map port_write (byte_bits (phromData rom (offset_of (address t)))) \<and>
         lines rom [M0_INT] (fst (isr_m0 rom (t, h))) =
           [Driven (bit (phromData rom (offset_of (address t))) 0)]"
proof -
  have "lines rom (replicate 8 M0_INT) (fst (isr_m0 rom (t, h))) =
      map Driven (byte_bits (phromData rom (offset_of (address t))))"
    using assms by (rule start_then_owned_byte(3))
  moreover have "snd (run rom (M0_INT # replicate 8 M0_INT) (t, h)) =
      ADD8_DDR_Set # map port_write (byte_bits (phromData rom (offset_of (address t))))"
    using assms by (rule start_then_owned_byte(4))
  moreover have "lines rom [M0_INT] (fst (isr_m0 rom (t, h))) =
      [Driven (bit (phromData rom (offset_of (address t))) 0)]"
    using calculation(1) by (simp add: replicate_8 byte_bits_def case_prod_unfold)
  ultimately show ?thesis
    by blast
qed

theorem read_byte_lsb_first_witness:
  "lines example_rom (replicate 8 M0_INT) (fst (isr_m0 example_rom example_loaded)) =
     [Driven True, Driven False, Driven True, Driven False,
      Driven False, Driven True, Driven False, Driven True] \<and>
   snd (run example_rom (M0_INT # replicate 8 M0_INT) example_loaded) =
     [ADD8_DDR_Set, ADD8_PORT_Set, ADD8_PORT_Clear, ADD8_PORT_Set, ADD8_PORT_Clear,
      ADD8_PORT_Clear, ADD8_PORT_Set, ADD8_PORT_Clear, ADD8_PORT_Set]"
proof -
  have i: "machine_inv (fst example_loaded, snd example_loaded)"
    and a: "readDataActive (fst example_loaded) \<noteq> TRUE"
    and v: "validAddressLoadedFlag (fst example_loaded) \<noteq> FALSE"
    and b: "bank_of (address (fst example_loaded)) = PHROM_BANK example_rom"
    by (simp_all add: example_loaded_eq machine_inv_def add8_consistent_def bank_of_def
        example_rom_def)
  have d: "byte_bits (phromData example_rom (offset_of (address (fst example_loaded)))) =
      [True, False, True, False, False, True, False, True]"
    by (simp add: example_loaded_eq offset_of_def example_rom_def example_data_def byte_bits_def)
  show ?thesis
    using read_byte_lsb_first [OF i a v b]
    by (simp add: d port_write_def)
qed

subsection \<open>An address of another bank\<close>

text \<open>
  C6. From a state outside a session with a valid address whose bank is not the device's,
  the start pulse clears \<open>bankActiveFlag\<close>, sets \<open>currentByte\<close> to 0xFF, writes no
  register of the ADD8 pin and leaves the pin an input; the eight clock pulses that follow
  write no register of the pin either, and the pin is an input after each of them.
\<close>

theorem bank_mismatch_never_drives:
  assumes "machine_inv (t, h)" and "readDataActive t \<noteq> TRUE"
    and "validAddressLoadedFlag t \<noteq> FALSE" and "bank_of (address t) \<noteq> PHROM_BANK rom"
  shows "bankActiveFlag (fst (fst (isr_m0 rom (t, h)))) = FALSE \<and>
         currentByte (fst (fst (isr_m0 rom (t, h)))) = 0xFF \<and>
         add8_line (snd (fst (isr_m0 rom (t, h)))) = Released \<and>
         snd (isr_m0 rom (t, h)) = [] \<and>
         snd (run rom (replicate 8 M0_INT) (fst (isr_m0 rom (t, h)))) = [] \<and>
         lines rom (replicate 8 M0_INT) (fst (isr_m0 rom (t, h))) = replicate 8 Released"
proof -
  let ?t = "t\<lparr>readDataActive := TRUE, currentByte := 0xFF, currentBit := 0,
               bankActiveFlag := FALSE\<rparr>"
  let ?h = "h\<lparr>DEBUG1_PORT := True, DEBUG2_PORT := False, EICRA_M0_ISC1 := True,
               EICRA_M0_ISC0 := True\<rparr>"
  have start: "isr_m0 rom (t, h) = ((?t, ?h), [])"
    using assms(2-4) by (simp add: isr_m0_start bank_of_def)
  have flag: "add8InputFlag t = TRUE" and ddr: "ADD8_DDR h = False"
    using assms(1,2) by (auto simp add: machine_inv_def add8_consistent_def)
  have c: "add8_consistent (?t, ?h)"
    using flag ddr by (simp add: add8_consistent_def)
  have a: "readDataActive ?t = TRUE" and b: "bankActiveFlag ?t \<noteq> TRUE" and z: "currentBit ?t = 0"
    by simp_all
  have "lines rom (replicate 8 M0_INT) (?t, ?h) = replicate 8 Released"
    using a b z c by (rule unowned_byte_clocks(1))
  moreover have "snd (run rom (replicate 8 M0_INT) (?t, ?h)) = []"
    using unowned_byte_clocks(2) [OF a b z c, of rom] flag by simp
  ultimately show ?thesis
    using ddr by (simp add: start add8_line_def)
qed

theorem bank_mismatch_never_drives_witness:
  "bank_of (address (fst example_loaded_other)) = 5 \<and>
   PHROM_BANK example_rom = 2 \<and>
   bankActiveFlag (fst (fst (isr_m0 example_rom example_loaded_other))) = FALSE \<and>
   currentByte (fst (fst (isr_m0 example_rom example_loaded_other))) = 0xFF \<and>
   add8_line (snd (fst (isr_m0 example_rom example_loaded_other))) = Released \<and>
   snd (isr_m0 example_rom example_loaded_other) = [] \<and>
   snd (run example_rom (replicate 8 M0_INT) (fst (isr_m0 example_rom example_loaded_other))) = [] \<and>
   lines example_rom (replicate 8 M0_INT) (fst (isr_m0 example_rom example_loaded_other)) =
     replicate 8 Released"
proof -
  have i: "machine_inv (fst example_loaded_other, snd example_loaded_other)"
    and a: "readDataActive (fst example_loaded_other) \<noteq> TRUE"
    and v: "validAddressLoadedFlag (fst example_loaded_other) \<noteq> FALSE"
    and b: "bank_of (address (fst example_loaded_other)) \<noteq> PHROM_BANK example_rom"
    and b5: "bank_of (address (fst example_loaded_other)) = 5"
    and b2: "PHROM_BANK example_rom = 2"
    by (simp_all add: example_loaded_other_eq machine_inv_def add8_consistent_def bank_of_def
        example_rom_def)
  show ?thesis
    using bank_mismatch_never_drives [OF i a v b] b5 b2
    by simp
qed

subsection \<open>The start pulse\<close>

text \<open>
  C9. The start pulse (outside a session, with a valid address) writes no register of the
  ADD8 pin: direction and port bit are as before. Of the device state it changes only
  \<open>readDataActive\<close>, \<open>currentByte\<close>, \<open>currentBit\<close> and \<open>bankActiveFlag\<close>. When the bank is
  the device's, the next clock pulse is the one that switches the pin to output and writes
  bit 0 of the byte.
\<close>

theorem start_pulse_no_bus_activity:
  assumes "readDataActive t \<noteq> TRUE" and "validAddressLoadedFlag t \<noteq> FALSE"
  shows "snd (isr_m0 rom (t, h)) = [] \<and>
         ADD8_DDR (snd (fst (isr_m0 rom (t, h)))) = ADD8_DDR h \<and>
         ADD8_PORT (snd (fst (isr_m0 rom (t, h)))) = ADD8_PORT h \<and>
         fst (fst (isr_m0 rom (t, h))) =
           t\<lparr>readDataActive := TRUE,
             currentByte := (if bank_of (address t) = PHROM_BANK rom
                             then phromData rom (offset_of (address t)) else 0xFF),
             currentBit := 0,
             bankActiveFlag := (if bank_of (address t) = PHROM_BANK rom then TRUE else FALSE)\<rparr> \<and>
         (machine_inv (t, h) \<and> bank_of (address t) = PHROM_BANK rom \<longrightarrow>
            snd (isr_m0 rom (fst (isr_m0 rom (t, h)))) =
              [ADD8_DDR_Set, port_write (bit (phromData rom (offset_of (address t))) 0)] \<and>
            add8_line (snd (fst (isr_m0 rom (fst (isr_m0 rom (t, h)))))) =
              Driven (bit (phromData rom (offset_of (address t))) 0))"
proof -
  have start: "snd (isr_m0 rom (t, h)) = [] \<and>
         ADD8_DDR (snd (fst (isr_m0 rom (t, h)))) = ADD8_DDR h \<and>
         ADD8_PORT (snd (fst (isr_m0 rom (t, h)))) = ADD8_PORT h \<and>
         fst (fst (isr_m0 rom (t, h))) =
           t\<lparr>readDataActive := TRUE,
             currentByte := (if bank_of (address t) = PHROM_BANK rom
                             then phromData rom (offset_of (address t)) else 0xFF),
             currentBit := 0,
             bankActiveFlag := (if bank_of (address t) = PHROM_BANK rom then TRUE else FALSE)\<rparr>"
    using assms by (simp add: isr_m0_start bank_of_def offset_of_def)
  have clock: "snd (isr_m0 rom (fst (isr_m0 rom (t, h)))) =
              [ADD8_DDR_Set, port_write (bit (phromData rom (offset_of (address t))) 0)] \<and>
            add8_line (snd (fst (isr_m0 rom (fst (isr_m0 rom (t, h)))))) =
              Driven (bit (phromData rom (offset_of (address t))) 0)"
    if inv: "machine_inv (t, h)" and bank: "bank_of (address t) = PHROM_BANK rom"
  proof -
    have flag: "add8InputFlag t = TRUE" and ddr: "ADD8_DDR h = False"
      using inv assms(1) by (auto simp add: machine_inv_def add8_consistent_def)
    show ?thesis
      using assms bank flag ddr
      by (simp add: isr_m0_start isr_m0_owned_mid bank_of_def offset_of_def
          add8_consistent_def add8_line_def)
  qed
  from start clock show ?thesis
    by blast
qed

theorem start_pulse_no_bus_activity_witness:
  "snd (isr_m0 example_rom example_loaded) = [] \<and>
   add8_line (snd (fst (isr_m0 example_rom example_loaded))) = Released \<and>
   readDataActive (fst (fst (isr_m0 example_rom example_loaded))) = TRUE \<and>
   currentByte (fst (fst (isr_m0 example_rom example_loaded))) = 0xA5 \<and>
   snd (isr_m0 example_rom (fst (isr_m0 example_rom example_loaded))) =
     [ADD8_DDR_Set, ADD8_PORT_Set] \<and>
   add8_line (snd (fst (isr_m0 example_rom (fst (isr_m0 example_rom example_loaded))))) =
     Driven True"
proof -
  have i: "machine_inv (fst example_loaded, snd example_loaded)"
    and a: "readDataActive (fst example_loaded) \<noteq> TRUE"
    and v: "validAddressLoadedFlag (fst example_loaded) \<noteq> FALSE"
    and b: "bank_of (address (fst example_loaded)) = PHROM_BANK example_rom"
    by (simp_all add: example_loaded_eq machine_inv_def add8_consistent_def bank_of_def
        example_rom_def)
  have d: "phromData example_rom (offset_of (address (fst example_loaded))) = 0xA5"
    and r: "ADD8_DDR (snd example_loaded) = False"
    by (simp_all add: example_loaded_eq offset_of_def example_rom_def example_data_def)
  show ?thesis
    using start_pulse_no_bus_activity [OF a v, of example_rom "snd example_loaded"] i b r
    by (simp add: d port_write_def add8_line_def)
qed

subsection \<open>The end of a byte\<close>

text \<open>
  C5, as stated, fails: on the pulse that sends the last bit of the last byte of bank 2 the
  address moves to bank 3 and \<open>bankActiveFlag\<close> is cleared, but the pin still drives that
  last bit when the handler returns.
\<close>

theorem bank_crossing_release_counterexample:
  "readDataActive (fst example_last_bit) = TRUE \<and>
   bankActiveFlag (fst example_last_bit) = TRUE \<and>
   currentBit (fst example_last_bit) = 7 \<and>
   address (fst (fst (isr_m0 example_rom example_last_bit))) =
     address (fst example_last_bit) + 1 \<and>
   bank_of (address (fst (fst (isr_m0 example_rom example_last_bit)))) \<noteq>
     PHROM_BANK example_rom \<and>
   bankActiveFlag (fst (fst (isr_m0 example_rom example_last_bit))) = FALSE \<and>
   add8_line (snd (fst (isr_m0 example_rom example_last_bit))) \<noteq> Released"
  by (simp add: example_last_bit_eq isr_m0_def Let_def example_rom_def example_data_def
      bank_of_def add8_line_def)

text \<open>
  C5, amended. In a session whose current byte is the device's, the clock pulse that sends
  bit 7 adds 1 to \<open>address\<close> (in 32-bit arithmetic). If the bank of the new address is
  not the device's, \<open>bankActiveFlag\<close> is cleared in that pulse, while the pin still drives
  bit 7 when the handler returns; the pin becomes an input on the next interrupt, be it the
  next clock pulse or a LOAD ADDRESS.
\<close>

theorem byte_end_bank_crossing:
  assumes "readDataActive t = TRUE" and "bankActiveFlag t = TRUE" and "currentBit t = 7"
    and "add8_consistent (t, h)"
  shows "address (fst (fst (isr_m0 rom (t, h)))) = address t + 1 \<and>
         (bank_of (address t + 1) \<noteq> PHROM_BANK rom \<longrightarrow>
            bankActiveFlag (fst (fst (isr_m0 rom (t, h)))) = FALSE \<and>
            add8_line (snd (fst (isr_m0 rom (t, h)))) = Driven (bit (currentByte t) 7) \<and>
            snd (isr_m0 rom (fst (isr_m0 rom (t, h)))) = [ADD8_DDR_Clear, ADD8_PORT_Clear] \<and>
            add8_line (snd (fst (isr_m0 rom (fst (isr_m0 rom (t, h)))))) = Released \<and>
            add8_line (snd (fst (isr_m1 p (fst (isr_m0 rom (t, h)))))) = Released)"
  using assms
  by (simp add: isr_m0_owned_last isr_m0_unowned_mid isr_m1_eq bank_of_def add8_line_def
      add8_consistent_def)

theorem byte_end_bank_crossing_witness:
  "address (fst example_last_bit) = 0xBFFF \<and>
   address (fst (fst (isr_m0 example_rom example_last_bit))) = 0xC000 \<and>
   bankActiveFlag (fst (fst (isr_m0 example_rom example_last_bit))) = FALSE \<and>
   add8_line (snd (fst (isr_m0 example_rom example_last_bit))) = Driven False \<and>
   snd (isr_m0 example_rom (fst (isr_m0 example_rom example_last_bit))) =
     [ADD8_DDR_Clear, ADD8_PORT_Clear] \<and>
   add8_line (snd (fst (isr_m0 example_rom (fst (isr_m0 example_rom example_last_bit))))) =
     Released \<and>
   add8_line (snd (fst (isr_m1 (nibble_pins 0) (fst (isr_m0 example_rom example_last_bit))))) =
     Released"
proof -
  have a: "readDataActive (fst example_last_bit) = TRUE"
    and b: "bankActiveFlag (fst example_last_bit) = TRUE"
    and k: "currentBit (fst example_last_bit) = 7"
    and c: "add8_consistent (fst example_last_bit, snd example_last_bit)"
    and x: "bank_of (address (fst example_last_bit) + 1) \<noteq> PHROM_BANK example_rom"
    and v: "address (fst example_last_bit) = 0xBFFF"
      "bit (currentByte (fst example_last_bit)) 7 = False"
    by (simp_all add: example_last_bit_eq add8_consistent_def bank_of_def example_rom_def)
  show ?thesis
    using byte_end_bank_crossing [OF a b k c, of example_rom "nibble_pins 0"] x
    by (simp add: v)
qed

subsection \<open>The scenario of bank 2\<close>

lemma example_load_from:
  assumes "loadAddressNibble t = 0"
  shows "address (fst (fst (run rom example_load (t, h)))) = 0x8000"
    and "bankSelectNumber (fst (fst (run rom example_load (t, h)))) = 2"
    and "validAddressLoadedFlag (fst (fst (run rom example_load (t, h)))) = TRUE"
    and "readDataActive (fst (fst (run rom example_load (t, h)))) = FALSE"
  using assms by (simp_all add: example_load_def isr_m1_eq Let_def)

text \<open>
  C8, as stated, fails: after the nibbles 0, 0, 0, 8, 0 the address register holds 0x08000,
  not 0: the 18-bit mask keeps the four bank bits.
\<close>

theorem scenario_address_counterexample:
  "PHROM_BANK example_rom = 2 \<and>
   address (fst (fst (run example_rom example_load initial))) = 0x8000 \<and>
   address (fst (fst (run example_rom example_load initial))) \<noteq> 0"
proof -
  have "loadAddressNibble (fst initial) = 0"
    by (simp add: example_defs)
  then have "address (fst (fst (run example_rom example_load (fst initial, snd initial)))) = 0x8000"
    by (rule example_load_from(1))
  then show ?thesis
    by (simp add: example_rom_def)
qed

text \<open>
  C8, amended. For a device of bank 2, the nibbles 0, 0, 0, 8, 0 accumulate to 0x08000; the
  five LOAD ADDRESS interrupts leave \<open>bankSelectNumber\<close> = 2 and \<open>address\<close> = 0x08000,
  whose offset is 0. The start pulse then sets \<open>bankActiveFlag\<close> and fetches
  \<open>phromData[0]\<close>, and the eight clock pulses put its bits on the pin, bit 0 first.
\<close>

theorem scenario_bank_2:
  assumes "PHROM_BANK rom = 2" and "loadAddressNibble t = 0" and "machine_inv (t, h)"
  shows "spec_accumulate 0 0 0 8 0 = 0x08000 \<and>
         bankSelectNumber (fst (fst (run rom example_load (t, h)))) = 2 \<and>
         address (fst (fst (run rom example_load (t, h)))) = 0x08000 \<and>
         offset_of (address (fst (fst (run rom example_load (t, h))))) = 0 \<and>
         bankActiveFlag (fst (fst (isr_m0 rom (fst (run rom example_load (t, h)))))) = TRUE \<and>
         currentByte (fst (fst (isr_m0 rom (fst (run rom example_load (t, h)))))) =
           phromData rom 0 \<and>
         lines rom (replicate 8 M0_INT) (fst (isr_m0 rom (fst (run rom example_load (t, h))))) =
           map Driven (byte_bits (phromData rom 0)) \<and>
         snd (run rom (M0_INT # replicate 8 M0_INT) (fst (run rom example_load (t, h)))) =
           ADD8_DDR_Set # map port_write (byte_bits (phromData rom 0))"
proof -
  let ?s = "fst (run rom example_load (t, h))"
  have acc: "spec_accumulate 0 0 0 8 0 = 0x08000"
    by (simp add: spec_accumulate_def)
  have adr: "address (fst ?s) = 0x8000" and sel: "bankSelectNumber (fst ?s) = 2"
    and valid: "validAddressLoadedFlag (fst ?s) \<noteq> FALSE"
    and idle: "readDataActive (fst ?s) \<noteq> TRUE"
    using example_load_from [OF assms(2), of rom h] by simp_all
  have off: "offset_of (address (fst ?s)) = 0"
    by (simp add: adr offset_of_def)
  have bank: "bank_of (address (fst ?s)) = PHROM_BANK rom"
    by (simp add: adr bank_of_def assms(1))
  have inv: "machine_inv (fst ?s, snd ?s)"
    using machine_inv_run [OF assms(3), of rom example_load] by simp
  note byte = start_then_owned_byte [OF inv idle valid bank]
  from acc adr sel off byte show ?thesis
    by simp
qed

theorem scenario_bank_2_witness:
  "bankSelectNumber (fst (fst (run example_rom example_load initial))) = 2 \<and>
   address (fst (fst (run example_rom example_load initial))) = 0x08000 \<and>
   bankActiveFlag (fst (fst (isr_m0 example_rom (fst (run example_rom example_load initial))))) =
     TRUE \<and>
   currentByte (fst (fst (isr_m0 example_rom (fst (run example_rom example_load initial))))) =
     0xA5 \<and>
   lines example_rom (replicate 8 M0_INT)
       (fst (isr_m0 example_rom (fst (run example_rom example_load initial)))) =
     [Driven True, Driven False, Driven True, Driven False,
      Driven False, Driven True, Driven False, Driven True]"
proof -
  have b: "PHROM_BANK example_rom = 2" and d: "phromData example_rom 0 = 0xA5"
    by (simp_all add: example_rom_def example_data_def)
  have n: "loadAddressNibble (fst initial) = 0"
    by (simp add: example_defs)
  have i: "machine_inv (fst initial, snd initial)"
    using machine_inv_initial by simp
  have bits: "byte_bits 0xA5 = [True, False, True, False, False, True, False, True]"
    by (simp add: byte_bits_def)
  show ?thesis
    using scenario_bank_2 [OF b n i]
    by (simp add: d bits)
qed

subsection \<open>The address during a session\<close>

lemma isr_m0_address:
  "address (fst (fst (isr_m0 rom (t, h)))) =
     (if readDataActive t = TRUE
      then (if currentBit t + 1 > 7 then address t + 1 else address t)
      else if validAddressLoadedFlag t = FALSE then 0 else address t)"
  by (simp add: isr_m0_def Let_def)

lemma isr_m0_current_bit:
  "readDataActive t = TRUE \<Longrightarrow>
   currentBit (fst (fst (isr_m0 rom (t, h)))) =
     (if currentBit t + 1 > 7 then 0 else currentBit t + 1)"
  by (simp add: isr_m0_def Let_def)

lemma isr_m1_address:
  "address (fst (fst (isr_m1 p (t, h)))) =
     (if loadAddressNibble t = 0 then read_nibble p
      else if loadAddressNibble t = 1 then address t OR push_bit 4 (read_nibble p)
      else if loadAddressNibble t = 2 then address t OR push_bit 8 (read_nibble p)
      else if loadAddressNibble t = 3 then address t OR push_bit 12 (read_nibble p)
      else if loadAddressNibble t = 4 then (address t OR push_bit 16 (read_nibble p)) AND 0x3FFFF
      else if loadAddressNibble t + 1 > 4 then address t AND 0x3FFFF
      else address t)"
  by (simp add: isr_m1_eq Let_def)

lemma run_fst_Cons: "fst (run rom (e # es) s) = fst (run rom es (fst (step rom e s)))"
  by (simp add: case_prod_unfold)

lemma run_fst_append: "fst (run rom (xs @ ys) s) = fst (run rom ys (fst (run rom xs s)))"
proof (induction xs arbitrary: s)
  case Nil
  show ?case by simp
next
  case (Cons e xs)
  show ?case
    by (simp only: append_Cons run_fst_Cons Cons.IH)
qed

lemma one_byte_address:
  assumes "readDataActive (fst s) = TRUE" and "currentBit (fst s) = 0"
  shows "readDataActive (fst (fst (run rom (replicate 8 M0_INT) s))) = TRUE \<and>
         currentBit (fst (fst (run rom (replicate 8 M0_INT) s))) = 0 \<and>
         address (fst (fst (run rom (replicate 8 M0_INT) s))) = address (fst s) + 1"
proof -
  have step: "readDataActive (fst (fst (isr_m0 rom u))) = TRUE \<and>
      currentBit (fst (fst (isr_m0 rom u))) =
        (if currentBit (fst u) + 1 > 7 then 0 else currentBit (fst u) + 1) \<and>
      address (fst (fst (isr_m0 rom u))) =
        (if currentBit (fst u) + 1 > 7 then address (fst u) + 1 else address (fst u))"
    if "readDataActive (fst u) = TRUE" for u
    using that isr_m0_active [of rom "fst u" "snd u"] isr_m0_current_bit [of "fst u" rom "snd u"]
      isr_m0_address [of rom "fst u" "snd u"]
    by simp
  show ?thesis
    using assms by (simp add: replicate_8 run_fst_Cons step del: run.simps(2))
qed

lemma bytes_address:
  assumes "readDataActive (fst s) = TRUE" and "currentBit (fst s) = 0"
  shows "readDataActive (fst (fst (run rom (replicate (8 * k) M0_INT) s))) = TRUE \<and>
         currentBit (fst (fst (run rom (replicate (8 * k) M0_INT) s))) = 0 \<and>
         address (fst (fst (run rom (replicate (8 * k) M0_INT) s))) = address (fst s) + of_nat k"
  using assms
proof (induction k arbitrary: s)
  case 0
  then show ?case by simp
next
  case (Suc k)
  let ?u = "fst (run rom (replicate 8 M0_INT) s)"
  have u: "readDataActive (fst ?u) = TRUE \<and> currentBit (fst ?u) = 0 \<and>
      address (fst ?u) = address (fst s) + 1"
    using Suc.prems by (rule one_byte_address)
  have split: "replicate (8 * Suc k) M0_INT = replicate 8 M0_INT @ replicate (8 * k) M0_INT"
    by (simp add: replicate_add [symmetric])
  from u have "readDataActive (fst (fst (run rom (replicate (8 * k) M0_INT) ?u))) = TRUE \<and>
      currentBit (fst (fst (run rom (replicate (8 * k) M0_INT) ?u))) = 0 \<and>
      address (fst (fst (run rom (replicate (8 * k) M0_INT) ?u))) = address (fst ?u) + of_nat k"
    by (intro Suc.IH) simp_all
  with u show ?case
    by (simp only: split run_fst_append) (simp add: add.assoc add.commute)
qed

lemma read_nibble_pins_3 [simp]: "read_nibble (nibble_pins 3) = 3"
  by (simp add: read_nibble_def nibble_pins_def Let_def)

lemma example_session_top_eq:
  "example_session_top =
     (\<lparr>address = 0x3FFFF, bankSelectNumber = 15, loadAddressNibble = 0,
       validAddressLoadedFlag = 1, readDataActive = 1, currentBit = 0, currentByte = 0xFF,
       add8InputFlag = 1, bankActiveFlag = 0\<rparr>,
      \<lparr>ADD8_DDR = False, ADD8_PORT = False, DEBUG0_PORT = True, DEBUG1_PORT = True,
       DEBUG2_PORT = False, EICRA_M0_ISC1 = True, EICRA_M0_ISC0 = True,
       EIFR_M0_INTF = False, EIMSK_M0_INT = True, SPCR = 0\<rparr>)"
  by (simp add: example_session_top_def example_defs isr_m1_eq isr_m0_def Let_def)

lemma unat_plus_of_nat:
  "unat (a :: 32 word) + k < 2 ^ 32 \<Longrightarrow> unat (a + of_nat k) = unat a + k"
  by (simp add: unat_word_ariths unat_of_nat mod_add_right_eq)

text \<open>
  C7. The clock pulse that ends a byte adds 1 to the 32-bit \<open>address\<close> and applies no
  mask, so \<open>k\<close> bytes of a session add \<open>k\<close>, also beyond 0x3FFFF. A READ DATA interrupt
  leaves \<open>address\<close> as it is, adds 1 to it, or (the dummy read) zeroes it. A LOAD ADDRESS
  interrupt stores the first nibble over a cleared register, ORs the next three in, and
  only with the fifth nibble applies the mask 0x3FFFF.
\<close>

theorem address_increment_unmasked:
  "address (fst (fst (isr_m0 rom (t, h)))) =
     (if readDataActive t = TRUE
      then (if currentBit t + 1 > 7 then address t + 1 else address t)
      else if validAddressLoadedFlag t = FALSE then 0 else address t) \<and>
   (readDataActive t = TRUE \<and> currentBit t = 7 \<longrightarrow>
      address (fst (fst (isr_m0 rom (t, h)))) = address t + 1) \<and>
   (readDataActive t = TRUE \<and> currentBit t = 0 \<longrightarrow>
      address (fst (fst (run rom (replicate (8 * k) M0_INT) (t, h)))) = address t + of_nat k) \<and>
   (readDataActive t = TRUE \<and> currentBit t = 0 \<and> unat (address t) + k < 2 ^ 32 \<longrightarrow>
      unat (address (fst (fst (run rom (replicate (8 * k) M0_INT) (t, h))))) =
        unat (address t) + k) \<and>
   address (fst (fst (isr_m1 p (t, h)))) =
     (if loadAddressNibble t = 0 then read_nibble p
      else if loadAddressNibble t = 1 then address t OR push_bit 4 (read_nibble p)
      else if loadAddressNibble t = 2 then address t OR push_bit 8 (read_nibble p)
      else if loadAddressNibble t = 3 then address t OR push_bit 12 (read_nibble p)
      else if loadAddressNibble t = 4 then (address t OR push_bit 16 (read_nibble p)) AND 0x3FFFF
      else if loadAddressNibble t + 1 > 4 then address t AND 0x3FFFF
      else address t) \<and>
   (loadAddressNibble t = 4 \<longrightarrow> address (fst (fst (isr_m1 p (t, h)))) \<le> 0x3FFFF)"
proof -
  have m0: "address (fst (fst (isr_m0 rom (t, h)))) =
     (if readDataActive t = TRUE
      then (if currentBit t + 1 > 7 then address t + 1 else address t)
      else if validAddressLoadedFlag t = FALSE then 0 else address t)"
    by (rule isr_m0_address)
  have last: "address (fst (fst (isr_m0 rom (t, h)))) = address t + 1"
    if "readDataActive t = TRUE \<and> currentBit t = 7"
    using that by (simp add: isr_m0_address)
  have bytes: "address (fst (fst (run rom (replicate (8 * k) M0_INT) (t, h)))) =
      address t + of_nat k"
    if "readDataActive t = TRUE \<and> currentBit t = 0"
    using that bytes_address [of "(t, h)" rom k] by simp
  have nat: "unat (address (fst (fst (run rom (replicate (8 * k) M0_INT) (t, h))))) =
      unat (address t) + k"
    if "readDataActive t = TRUE \<and> currentBit t = 0 \<and> unat (address t) + k < 2 ^ 32"
    using that bytes unat_plus_of_nat [of "address t" k] by simp
  have m1: "address (fst (fst (isr_m1 p (t, h)))) =
     (if loadAddressNibble t = 0 then read_nibble p
      else if loadAddressNibble t = 1 then address t OR push_bit 4 (read_nibble p)
      else if loadAddressNibble t = 2 then address t OR push_bit 8 (read_nibble p)
      else if loadAddressNibble t = 3 then address t OR push_bit 12 (read_nibble p)
      else if loadAddressNibble t = 4 then (address t OR push_bit 16 (read_nibble p)) AND 0x3FFFF
      else if loadAddressNibble t + 1 > 4 then address t AND 0x3FFFF
      else address t)"
    by (rule isr_m1_address)
  have mask: "address (fst (fst (isr_m1 p (t, h)))) \<le> 0x3FFFF"
    if "loadAddressNibble t = 4"
    using that by (simp add: isr_m1_address word_and_le1)
  from m0 last bytes nat m1 mask show ?thesis
    by blast
qed

theorem address_increment_unmasked_witness:
  "readDataActive (fst example_session_top) = TRUE \<and>
   currentBit (fst example_session_top) = 0 \<and>
   address (fst example_session_top) = 0x3FFFF \<and>
   address (fst (fst (run example_rom (replicate (8 * 2) M0_INT) example_session_top))) =
     0x40001 \<and>
   unat (address (fst (fst (run example_rom (replicate (8 * 2) M0_INT) example_session_top)))) =
     262145"
proof -
  have a: "readDataActive (fst example_session_top) = TRUE"
    and z: "currentBit (fst example_session_top) = 0"
    and v: "address (fst example_session_top) = 0x3FFFF"
    by (simp_all add: example_session_top_eq)
  show ?thesis
    using address_increment_unmasked [of example_rom "fst example_session_top"
        "snd example_session_top" 2 "nibble_pins 0"] a z v
    by simp
qed

end
